theory Spec2Isabelle
  imports Complex_Main "HOL-Library.Sublist" "HOL-Library.Char_ord" "HOL-Library.List_Lexorder"
begin

section \<open>Maryland county results: the aggregation and classification pipeline\<close>

text \<open>
  A shallow embedding of \<^verbatim>\<open>Scripts/build_md_county_aggregated_results.py\<close>.

  Conventions of the model.
  \<^item> A Python \<^verbatim>\<open>str\<close> is a \<^typ>\<open>string\<close>, and a \<^typ>\<open>char\<close> is a code point below
    256. On these code points whitespace and letter case are Python's:
    \<^verbatim>\<open>str.isspace\<close> holds for 9 to 13, 28 to 32, 0x85 and 0xA0; \<^verbatim>\<open>lower\<close> moves A to Z
    and 0xC0 to 0xDE (0xD7 apart); \<^verbatim>\<open>upper\<close> moves a to z and 0xE0 to 0xFE (0xF7
    apart) and turns 0xDF into SS. The capitals of 0xB5 and 0xFF are the code points
    0x39C and 0x178, which a \<^typ>\<open>char\<close> cannot hold: \<open>upper\<close> is exact on every string
    without these two characters, and what is stated of it excludes them.
  \<^item> A finite Python \<^verbatim>\<open>float\<close> is the \<^typ>\<open>real\<close> number it denotes. The classifier
    only compares its argument with constants that are exact binary fractions, so the
    comparisons of the model are the comparisons of the code.
  \<^item> A \<^verbatim>\<open>dict\<close> that is only read is a map; a \<^verbatim>\<open>dict\<close> whose iteration order is
    observable is an association list in insertion order.
\<close>

subsection \<open>Strings\<close>

definition whitespace :: "char list" where
  "whitespace = [CHR 0x09, CHR 0x0A, CHR 0x0B, CHR 0x0C, CHR 0x0D,
                 CHR 0x1C, CHR 0x1D, CHR 0x1E, CHR 0x1F, CHR 0x20, CHR 0x85, CHR 0xA0]"

definition isspace :: "char \<Rightarrow> bool" where
  "isspace c = (c \<in> set whitespace)"

definition strip :: "string \<Rightarrow> string" where
  "strip s = rev (dropWhile isspace (rev (dropWhile isspace s)))"

definition lowercase_letters :: "char list" where
  "lowercase_letters = ''abcdefghijklmnopqrstuvwxyz'' @
       [CHR 0xE0, CHR 0xE1, CHR 0xE2, CHR 0xE3, CHR 0xE4, CHR 0xE5, CHR 0xE6, CHR 0xE7,
        CHR 0xE8, CHR 0xE9, CHR 0xEA, CHR 0xEB, CHR 0xEC, CHR 0xED, CHR 0xEE, CHR 0xEF,
        CHR 0xF0, CHR 0xF1, CHR 0xF2, CHR 0xF3, CHR 0xF4, CHR 0xF5, CHR 0xF6, CHR 0xF8,
        CHR 0xF9, CHR 0xFA, CHR 0xFB, CHR 0xFC, CHR 0xFD, CHR 0xFE]"

definition uppercase_letters :: "char list" where
  "uppercase_letters = ''ABCDEFGHIJKLMNOPQRSTUVWXYZ'' @
       [CHR 0xC0, CHR 0xC1, CHR 0xC2, CHR 0xC3, CHR 0xC4, CHR 0xC5, CHR 0xC6, CHR 0xC7,
        CHR 0xC8, CHR 0xC9, CHR 0xCA, CHR 0xCB, CHR 0xCC, CHR 0xCD, CHR 0xCE, CHR 0xCF,
        CHR 0xD0, CHR 0xD1, CHR 0xD2, CHR 0xD3, CHR 0xD4, CHR 0xD5, CHR 0xD6, CHR 0xD8,
        CHR 0xD9, CHR 0xDA, CHR 0xDB, CHR 0xDC, CHR 0xDD, CHR 0xDE]"

definition lower_char :: "char \<Rightarrow> char" where
  "lower_char c = (case map_of (zip uppercase_letters lowercase_letters) c of
                     Some d \<Rightarrow> d | None \<Rightarrow> c)"

text \<open>The capital form of a character is a string: that of 0xDF has two letters.\<close>

definition upper_char :: "char \<Rightarrow> string" where
  "upper_char c =
    (if c = CHR 0xDF then ''SS''
     else [case map_of (zip lowercase_letters uppercase_letters) c of
             Some d \<Rightarrow> d | None \<Rightarrow> c])"

definition lower :: "string \<Rightarrow> string" where
  "lower s = map lower_char s"

definition upper :: "string \<Rightarrow> string" where
  "upper s = concat (map upper_char s)"

text \<open>\<^verbatim>\<open>s.replace(old, new)\<close> for one-character \<^verbatim>\<open>old\<close> and \<^verbatim>\<open>new\<close>.\<close>

definition replace :: "char \<Rightarrow> char \<Rightarrow> string \<Rightarrow> string" where
  "replace old new s = map (\<lambda>c. if c = old then new else c) s"

text \<open>\<^verbatim>\<open>s.split()\<close>: the maximal runs of non-whitespace characters, in order.\<close>

fun split_ws :: "string \<Rightarrow> string list" where
  "split_ws [] = []"
| "split_ws (c # cs) =
     (if isspace c then split_ws cs
      else (case split_ws cs of
              [] \<Rightarrow> [[c]]
            | w # ws \<Rightarrow> (case cs of
                          [] \<Rightarrow> [[c]]
                        | d # _ \<Rightarrow> if isspace d then [c] # w # ws else (c # w) # ws)))"

text \<open>\<^verbatim>\<open>sep.join(xs)\<close>.\<close>

fun join :: "string \<Rightarrow> string list \<Rightarrow> string" where
  "join sep [] = []"
| "join sep [x] = x"
| "join sep (x # y # ys) = x @ sep @ join sep (y # ys)"

text \<open>\<^verbatim>\<open>sub in s\<close>, \<^verbatim>\<open>s.startswith(p)\<close> and \<^verbatim>\<open>s.endswith(p)\<close>.\<close>

definition contains :: "string \<Rightarrow> string \<Rightarrow> bool" where
  "contains sub s = sublist sub s"

definition startswith :: "string \<Rightarrow> string \<Rightarrow> bool" where
  "startswith s p = prefix p s"

definition endswith :: "string \<Rightarrow> string \<Rightarrow> bool" where
  "endswith s p = suffix p s"

text \<open>
  \<^verbatim>\<open>s.split(sep, 1)\<close> for a non-empty \<^verbatim>\<open>sep\<close>: \<open>split_first\<close> finds the leftmost
  occurrence of the separator and returns the text on either side of it.
\<close>

fun split_first :: "string \<Rightarrow> string \<Rightarrow> (string \<times> string) option" where
  "split_first sep [] = None"
| "split_first sep (c # cs) =
     (if prefix sep (c # cs) then Some ([], drop (length sep) (c # cs))
      else map_option (\<lambda>(a, b). (c # a, b)) (split_first sep cs))"

definition split1 :: "string \<Rightarrow> string \<Rightarrow> string list" where
  "split1 sep s = (case split_first sep s of None \<Rightarrow> [s] | Some (a, b) \<Rightarrow> [a, b])"

subsection \<open>The competitiveness scale\<close>

text \<open>
  The dictionary that \<^verbatim>\<open>competitiveness\<close> returns has five fixed keys; the field
  \<open>r_k\<close> of the record is the key \<^verbatim>\<open>k\<close>.
\<close>

record rating =
  r_category :: string
  r_party :: string
  r_code :: string
  r_color :: string
  r_label :: string

definition tossup :: rating where
  "tossup = \<lparr>r_category = ''Tossup'', r_party = ''Tossup'', r_code = ''TOSSUP'',
             r_color = ''#f7f7f7'', r_label = ''Tossup (<0.50%)''\<rparr>"

definition competitiveness :: "real \<Rightarrow> string \<Rightarrow> rating" where
  "competitiveness margin_pct winner =
    (if winner = ''TIE'' \<or> margin_pct < 0.5 then tossup
     else
       let party = (if winner = ''REP'' then ''Republican'' else ''Democratic'');
           prefix = (if winner = ''REP'' then ''R'' else ''D'')
       in
       if margin_pct \<ge> 40 then
         \<lparr>r_category = ''Annihilation'', r_party = party, r_code = prefix @ ''_ANNIHILATION'',
          r_color = (if winner = ''REP'' then ''#67000d'' else ''#08306b''),
          r_label = ''Annihilation '' @ party @ '' (>=40.00%)''\<rparr>
       else if margin_pct \<ge> 30 then
         \<lparr>r_category = ''Dominant'', r_party = party, r_code = prefix @ ''_DOMINANT'',
          r_color = (if winner = ''REP'' then ''#a50f15'' else ''#08519c''),
          r_label = ''Dominant '' @ party @ '' (30.00-39.99%)''\<rparr>
       else if margin_pct \<ge> 20 then
         \<lparr>r_category = ''Stronghold'', r_party = party, r_code = prefix @ ''_STRONGHOLD'',
          r_color = (if winner = ''REP'' then ''#cb181d'' else ''#3182bd''),
          r_label = ''Stronghold '' @ party @ '' (20.00-29.99%)''\<rparr>
       else if margin_pct \<ge> 10 then
         \<lparr>r_category = ''Safe'', r_party = party, r_code = prefix @ ''_SAFE'',
          r_color = (if winner = ''REP'' then ''#ef3b2c'' else ''#6baed6''),
          r_label = ''Safe '' @ party @ '' (10.00-19.99%)''\<rparr>
       else if margin_pct \<ge> 5.5 then
         \<lparr>r_category = ''Likely'', r_party = party, r_code = prefix @ ''_LIKELY'',
          r_color = (if winner = ''REP'' then ''#fb6a4a'' else ''#9ecae1''),
          r_label = ''Likely '' @ party @ '' (5.50-9.99%)''\<rparr>
       else if margin_pct \<ge> 1 then
         \<lparr>r_category = ''Lean'', r_party = party, r_code = prefix @ ''_LEAN'',
          r_color = (if winner = ''REP'' then ''#fcae91'' else ''#c6dbef''),
          r_label = ''Lean '' @ party @ '' (1.00-5.49%)''\<rparr>
       else
         \<lparr>r_category = ''Tilt'', r_party = party, r_code = prefix @ ''_TILT'',
          r_color = (if winner = ''REP'' then ''#fee8c8'' else ''#e1f5fe''),
          r_label = ''Tilt '' @ party @ '' (0.50-0.99%)''\<rparr>)"

text \<open>
  The band table of the specification, written from its words for comparison with the
  code: the first lower bound, in descending order, that the margin reaches.
\<close>

definition spec_band :: "real \<Rightarrow> string" where
  "spec_band m =
    (if m \<ge> 40 then ''Annihilation'' else if m \<ge> 30 then ''Dominant''
     else if m \<ge> 20 then ''Stronghold'' else if m \<ge> 10 then ''Safe''
     else if m \<ge> 5.5 then ''Likely'' else if m \<ge> 1 then ''Lean'' else ''Tilt'')"

definition band_suffix :: "string \<Rightarrow> string" where
  "band_suffix b = CHR ''_'' # upper b"

subsection \<open>The name normalizer\<close>

definition PARTY_MAP :: "(string \<times> string) list" where
  "PARTY_MAP =
    [(''democratic'', ''DEM''), (''republican'', ''REP''), (''libertarian'', ''LIB''),
     (''independent'', ''IND''), (''reform'', ''REF''), (''green'', ''GRN''),
     (''alliance'', ''ALL''), (''taxpayers'', ''TAX''), (''natural-law'', ''NAT''),
     (''other'', ''OTH''), (''both parties'', ''BTH'')]"

definition normalize_contest_name :: "string \<Rightarrow> string" where
  "normalize_contest_name office =
    (let office' = strip office in
     if startswith office' ''Comptroller'' then ''Comptroller'' else office')"

text \<open>
  The callers pass a \<^verbatim>\<open>str\<close>; \<^verbatim>\<open>party or ""\<close> is then \<^verbatim>\<open>party\<close> itself.
\<close>

definition normalize_party :: "string \<Rightarrow> string" where
  "normalize_party party =
    (let p = lower (strip party) in
     case map_of PARTY_MAP p of
       Some code \<Rightarrow> code
     | None \<Rightarrow> if p = [] then ''OTH'' else upper p)"

definition remove_running_mate :: "string \<Rightarrow> string" where
  "remove_running_mate name =
    (let candidate = strip name in
     if candidate = [] then candidate
     else if contains ''/'' candidate then strip (hd (split1 ''/'' candidate))
     else if contains '' and '' (lower candidate) then
       (let parts = split1 '' and '' candidate in
        if length parts = 2 then strip (hd parts) else candidate)
     else candidate)"

subsection \<open>The county resolver\<close>

text \<open>\<^verbatim>\<open>_norm\<close>; the backtick becomes the apostrophe, code point 39.\<close>

definition norm :: "string \<Rightarrow> string" where
  "norm s = join '' '' (split_ws (lower (strip (replace (CHR 0x60) (CHR 0x27) s))))"

text \<open>
  The lookup is only read by the resolver: a map from the normalized short name to the
  full names filed under it, in the order of the geographic reference.
  \<open>get_list\<close> is \<^verbatim>\<open>by_name.get(k, [])\<close>.
\<close>

type_synonym lookup = "string \<Rightarrow> string list option"

definition get_list :: "lookup \<Rightarrow> string \<Rightarrow> string list" where
  "get_list by_name k = (case by_name k of None \<Rightarrow> [] | Some v \<Rightarrow> v)"

text \<open>
  \<open>first_truthy P xs\<close> is \<^verbatim>\<open>next((x for x in xs if P(x)), None)\<close> followed by the
  truth test \<^verbatim>\<open>if name:\<close>, which a \<^verbatim>\<open>None\<close> and an empty string both fail.
\<close>

definition first_truthy :: "(string \<Rightarrow> bool) \<Rightarrow> string list \<Rightarrow> string option" where
  "first_truthy P xs = (case find P xs of None \<Rightarrow> None | Some x \<Rightarrow> if x = [] then None else Some x)"

definition has_city :: "string \<Rightarrow> bool" where
  "has_city x = contains '' city'' (lower x)"

definition has_county :: "string \<Rightarrow> bool" where
  "has_county x = contains '' county'' (lower x)"

text \<open>The base key: the normalized string without a trailing " county" or " city".\<close>

definition base_key :: "string \<Rightarrow> string" where
  "base_key nraw =
    (if endswith nraw '' county'' then strip (take (length nraw - 7) nraw)
     else if endswith nraw '' city'' then strip (take (length nraw - 5) nraw)
     else nraw)"

text \<open>Lines 96 to 118 of the source: the generic lookup and the fallback.\<close>

definition resolve_generic :: "string \<Rightarrow> string \<Rightarrow> lookup \<Rightarrow> string" where
  "resolve_generic raw nraw by_name =
    (let candidates = get_list by_name (base_key nraw) in
     if length candidates = 1 then hd candidates
     else if length candidates > 1 then
       (case (if contains ''city'' nraw then first_truthy has_city candidates else None) of
          Some city_name \<Rightarrow> city_name
        | None \<Rightarrow>
            (case first_truthy has_county candidates of
               Some county_name \<Rightarrow> county_name
             | None \<Rightarrow> hd candidates))
     else if endswith (lower raw) '' county'' \<or> endswith (lower raw) '' city'' then raw
     else raw @ '' County'')"

definition to_namelsad20 :: "string \<Rightarrow> lookup \<Rightarrow> string" where
  "to_namelsad20 county by_name =
    (let raw = replace (CHR 0x60) (CHR 0x27) (strip county);
         nraw = norm raw
     in case (if nraw = ''baltimore city''
              then first_truthy has_city (get_list by_name ''baltimore'') else None) of
          Some city_name \<Rightarrow> city_name
        | None \<Rightarrow> resolve_generic raw nraw by_name)"

text \<open>
  \<^verbatim>\<open>load_namelsad20_lookup\<close> over the records of the geographic reference, each read
  as the triple of its fields \<^verbatim>\<open>STATEFP20\<close>, \<^verbatim>\<open>NAME20\<close> and \<^verbatim>\<open>NAMELSAD20\<close>: the
  records of state 24 are appended, in order, to the group of their normalized short name.
\<close>

definition add_record :: "string \<times> string \<times> string \<Rightarrow> lookup \<Rightarrow> lookup" where
  "add_record rec by_name =
    (case rec of (state, name, namelsad) \<Rightarrow>
       if state \<noteq> ''24'' then by_name
       else by_name(norm name \<mapsto> get_list by_name (norm name) @ [namelsad]))"

definition load_namelsad20_lookup :: "(string \<times> string \<times> string) list \<Rightarrow> lookup" where
  "load_namelsad20_lookup records = fold add_record records Map.empty"

subsection \<open>Integers from text\<close>

text \<open>
  \<^verbatim>\<open>int(s)\<close> on a string, in base 10. The whitespace that \<^verbatim>\<open>int\<close> drops around the
  number is its own: 9 to 13, 32, 0x85 and 0xA0, without the separators 28 to 31. One
  sign is allowed, and the digits may be grouped by single underscores. A number of more
  than 4300 digits is refused (the default of \<^verbatim>\<open>sys.get_int_max_str_digits()\<close>; leading
  zeros count, underscores and the sign do not). \<open>None\<close> is the \<^verbatim>\<open>ValueError\<close>.
\<close>

definition int_space :: "char list" where
  "int_space = [CHR 0x09, CHR 0x0A, CHR 0x0B, CHR 0x0C, CHR 0x0D, CHR 0x20, CHR 0x85, CHR 0xA0]"

definition int_strip :: "string \<Rightarrow> string" where
  "int_strip s =
    rev (dropWhile (\<lambda>c. c \<in> set int_space) (rev (dropWhile (\<lambda>c. c \<in> set int_space) s)))"

definition max_str_digits :: nat where
  "max_str_digits = 4300"

definition digit_value :: "char \<Rightarrow> nat option" where
  "digit_value c = map_of (zip ''0123456789'' [0, 1, 2, 3, 4, 5, 6, 7, 8, 9]) c"

definition parse_digits :: "string \<Rightarrow> nat option" where
  "parse_digits s =
    (if s = [] \<or> hd s = CHR ''_'' \<or> last s = CHR ''_'' \<or> contains ''__'' s then None
     else let ds = filter (\<lambda>c. c \<noteq> CHR ''_'') s in
       if length ds > max_str_digits then None
       else foldl (\<lambda>acc c. case acc of None \<Rightarrow> None
                             | Some n \<Rightarrow> map_option (\<lambda>d. 10 * n + d) (digit_value c))
              (Some 0) ds)"

definition py_int :: "string \<Rightarrow> int option" where
  "py_int s =
    (case int_strip s of
       [] \<Rightarrow> None
     | c # cs \<Rightarrow>
         if c = CHR ''-'' then map_option (\<lambda>n. - int n) (parse_digits cs)
         else if c = CHR ''+'' then map_option int (parse_digits cs)
         else map_option int (parse_digits (c # cs)))"

subsection \<open>The aggregator\<close>

text \<open>
  A dictionary whose order is observed is the list of its items in insertion order.
  \<open>update_default dflt k f d\<close> is \<^verbatim>\<open>d[k] = f(d[k])\<close> on a \<^verbatim>\<open>defaultdict\<close> whose
  factory returns \<open>dflt\<close>: a missing key is first inserted, at the end, with the default.
  \<open>getitem_default\<close> is the read \<^verbatim>\<open>d[k]\<close> on such a dictionary.
\<close>

type_synonym 'v pydict = "(string \<times> 'v) list"

definition keys :: "'v pydict \<Rightarrow> string list" where
  "keys d = map fst d"

definition update_default :: "'v \<Rightarrow> string \<Rightarrow> ('v \<Rightarrow> 'v) \<Rightarrow> 'v pydict \<Rightarrow> 'v pydict" where
  "update_default dflt k f d =
    (if k \<in> set (keys d) then map (\<lambda>(k', v). if k' = k then (k', f v) else (k', v)) d
     else d @ [(k, f dflt)])"

definition getitem_default :: "'v \<Rightarrow> 'v pydict \<Rightarrow> string \<Rightarrow> 'v" where
  "getitem_default dflt d k = (case map_of d k of None \<Rightarrow> dflt | Some v \<Rightarrow> v)"

text \<open>The tally: year, contest, county, party, candidate, votes.\<close>

type_synonym by_party = "int pydict pydict"
type_synonym tally = "by_party pydict pydict pydict"

definition tally_add ::
  "string \<Rightarrow> string \<Rightarrow> string \<Rightarrow> string \<Rightarrow> string \<Rightarrow> int \<Rightarrow> tally \<Rightarrow> tally" where
  "tally_add year contest county party_code candidate votes t =
    update_default [] year
      (update_default [] contest
        (update_default [] county
          (update_default [] party_code
            (update_default 0 candidate (\<lambda>n. n + votes))))) t"

definition CONTEST_FILTER :: "(string \<times> string \<times> int) list" where
  "CONTEST_FILTER =
    [(''President'', ''Federal'', 1), (''Governor'', ''State'', 2),
     (''U.S. Senator'', ''Federal'', 3), (''Attorney General'', ''State'', 4),
     (''Comptroller'', ''State'', 5)]"

text \<open>
  A row of \<^verbatim>\<open>csv.DictReader\<close> is a map from column names to fields; a column that is
  absent or short reads as \<^verbatim>\<open>None\<close>. \<open>get_or row k d\<close> is \<^verbatim>\<open>row.get(k) or d\<close>.
\<close>

type_synonym row = "string \<Rightarrow> string option"

definition get_or :: "row \<Rightarrow> string \<Rightarrow> string \<Rightarrow> string" where
  "get_or r k d = (case r k of None \<Rightarrow> d | Some s \<Rightarrow> if s = [] then d else s)"

text \<open>Lines 228 to 231: the vote count of a row, 0 when the field does not parse.\<close>

definition row_votes :: "row \<Rightarrow> int" where
  "row_votes r = (case py_int (strip (get_or r ''votes'' ''0'')) of None \<Rightarrow> 0 | Some v \<Rightarrow> v)"

record state =
  st_tally :: tally
  st_years_seen :: "string set"
  st_contests_seen :: "string set"

definition row_contest :: "row \<Rightarrow> string" where
  "row_contest r = normalize_contest_name (strip (get_or r ''office'' []))"

definition row_candidate :: "row \<Rightarrow> string" where
  "row_candidate r =
    (let c = remove_running_mate (strip (get_or r ''candidate'' []))
     in if c = [] then ''Unknown'' else c)"

definition process_row :: "lookup \<Rightarrow> string \<Rightarrow> row \<Rightarrow> state \<Rightarrow> state" where
  "process_row by_name year r st =
    (let contest = row_contest r in
     if contest \<notin> set (keys CONTEST_FILTER) then st
     else
       let county = to_namelsad20 (strip (get_or r ''county'' [])) by_name;
           party_code = normalize_party (get_or r ''party'' []);
           candidate = row_candidate r;
           votes = row_votes r
       in st\<lparr>st_tally := tally_add year contest county party_code candidate votes (st_tally st),
             st_contests_seen := insert contest (st_contests_seen st)\<rparr>)"

text \<open>A file is its name and its rows; a file whose first four characters are no integer is skipped.\<close>

definition process_file :: "lookup \<Rightarrow> string \<times> row list \<Rightarrow> state \<Rightarrow> state" where
  "process_file by_name file st =
    (case file of (name, rows) \<Rightarrow>
       (let year = take 4 name in
        (case py_int year of
           None \<Rightarrow> st
         | Some year_int \<Rightarrow>
             fold (process_row by_name year) rows
               (st\<lparr>st_years_seen := insert year (st_years_seen st)\<rparr>))))"

definition aggregate :: "lookup \<Rightarrow> (string \<times> row list) list \<Rightarrow> state" where
  "aggregate by_name files =
    fold (process_file by_name) (sort_key fst files)
      \<lparr>st_tally = [], st_years_seen = {}, st_contests_seen = {}\<rparr>"

subsection \<open>The summarizer and the report\<close>

text \<open>
  The floating-point steps of the summary are parameters of the model.
  \<open>round_pct a b\<close> stands for \<^verbatim>\<open>round((a / b) * 100, 2)\<close> on integers with
  \<^verbatim>\<open>b > 0\<close>: \<open>None\<close> when the division raises \<^verbatim>\<open>OverflowError\<close> (the quotient
  is too large for a float), else the float that results, which is infinite when the
  product overflows. \<open>format_2f x\<close> stands for \<^verbatim>\<open>f"{x:.2f}"\<close>.
  The summary can raise this \<^verbatim>\<open>OverflowError\<close> and the \<^verbatim>\<open>KeyError\<close> of
  \<^verbatim>\<open>CONTEST_FILTER[contest]\<close>.
\<close>

datatype pyfloat = Finite real | PosInf | NegInf

datatype error = KeyError string | OverflowError

text \<open>
  The classifier on a float: on an infinite margin its comparisons are those on any
  margin of at least 40 (\<^verbatim>\<open>inf >= 40\<close>), respectively below 0.5 (\<^verbatim>\<open>-inf < 0.5\<close>).
\<close>

definition classify :: "pyfloat \<Rightarrow> string \<Rightarrow> rating" where
  "classify margin_pct winner =
    (case margin_pct of
       Finite x \<Rightarrow> competitiveness x winner
     | PosInf \<Rightarrow> competitiveness 40 winner
     | NegInf \<Rightarrow> competitiveness 0 winner)"

record summary =
  s_county :: string
  s_contest :: string
  s_contest_type :: string
  s_office_rank :: int
  s_year :: string
  s_dem_candidate :: string
  s_rep_candidate :: string
  s_dem_votes :: int
  s_rep_votes :: int
  s_dem_pct :: pyfloat
  s_rep_pct :: pyfloat
  s_other_votes :: int
  s_total_votes :: int
  s_two_party_total :: int
  s_margin :: int
  s_margin_pct :: string
  s_winner :: string
  s_competitiveness :: rating
  s_all_parties :: "int pydict"

text \<open>
  \<^verbatim>\<open>Counter(d).most_common(1)[0][0]\<close> on a non-empty dictionary: the first key, in
  insertion order, among those of the largest count.
\<close>

fun max_first :: "string \<times> int \<Rightarrow> (string \<times> int) list \<Rightarrow> string \<times> int" where
  "max_first best [] = best"
| "max_first best (x # xs) = max_first (if snd x > snd best then x else best) xs"

definition leading_candidate :: "by_party \<Rightarrow> string \<Rightarrow> string" where
  "leading_candidate by_party p =
    (case map_of by_party p of
       None \<Rightarrow> []
     | Some [] \<Rightarrow> []
     | Some (x # xs) \<Rightarrow> fst (max_first x xs))"

definition dict_get :: "'v pydict \<Rightarrow> string \<Rightarrow> 'v \<Rightarrow> 'v" where
  "dict_get d k dflt = (case map_of d k of None \<Rightarrow> dflt | Some v \<Rightarrow> v)"

text \<open>\<open>pct round_pct a total\<close> is \<^verbatim>\<open>round((a / total) * 100, 2) if total > 0 else 0.0\<close>.\<close>

definition pct :: "(int \<Rightarrow> int \<Rightarrow> pyfloat option) \<Rightarrow> int \<Rightarrow> int \<Rightarrow> error + pyfloat" where
  "pct round_pct a total_votes =
    (if total_votes > 0
     then (case round_pct a total_votes of None \<Rightarrow> Inl OverflowError | Some x \<Rightarrow> Inr x)
     else Inr (Finite 0))"

definition summarize ::
  "(int \<Rightarrow> int \<Rightarrow> pyfloat option) \<Rightarrow> (pyfloat \<Rightarrow> string) \<Rightarrow> string \<Rightarrow> string \<Rightarrow> string
    \<Rightarrow> by_party \<Rightarrow> error + summary" where
  "summarize round_pct format_2f year contest county by_party =
    (let party_totals = map (\<lambda>(p, cands). (p, sum_list (map snd cands))) by_party;
         dem_votes = dict_get party_totals ''DEM'' 0;
         rep_votes = dict_get party_totals ''REP'' 0;
         total_votes = sum_list (map snd party_totals);
         two_party_total = dem_votes + rep_votes;
         other_votes = total_votes - two_party_total;
         dem_candidate = leading_candidate by_party ''DEM'';
         rep_candidate = leading_candidate by_party ''REP'';
         margin = \<bar>dem_votes - rep_votes\<bar>;
         winner = (if dem_votes > rep_votes then ''DEM''
                   else if rep_votes > dem_votes then ''REP'' else ''TIE'')
     in case pct round_pct margin total_votes of
          Inl e \<Rightarrow> Inl e
        | Inr margin_pct \<Rightarrow>
     (case pct round_pct dem_votes total_votes of
          Inl e \<Rightarrow> Inl e
        | Inr dem_pct \<Rightarrow>
     (case pct round_pct rep_votes total_votes of
          Inl e \<Rightarrow> Inl e
        | Inr rep_pct \<Rightarrow>
     (case map_of CONTEST_FILTER contest of
          None \<Rightarrow> Inl (KeyError contest)
        | Some (contest_type, office_rank) \<Rightarrow>
            Inr \<lparr>s_county = county, s_contest = contest, s_contest_type = contest_type,
                 s_office_rank = office_rank, s_year = year,
                 s_dem_candidate = dem_candidate, s_rep_candidate = rep_candidate,
                 s_dem_votes = dem_votes, s_rep_votes = rep_votes,
                 s_dem_pct = dem_pct, s_rep_pct = rep_pct,
                 s_other_votes = other_votes, s_total_votes = total_votes,
                 s_two_party_total = two_party_total, s_margin = margin,
                 s_margin_pct = format_2f margin_pct, s_winner = winner,
                 s_competitiveness = classify margin_pct winner,
                 s_all_parties = party_totals\<rparr>))))"

text \<open>A loop whose body may raise: the results so far, or the first exception.\<close>

fun mapM :: "('a \<Rightarrow> error + 'b) \<Rightarrow> 'a list \<Rightarrow> error + 'b list" where
  "mapM f [] = Inr []"
| "mapM f (x # xs) =
     (case f x of
        Inl e \<Rightarrow> Inl e
      | Inr y \<Rightarrow> (case mapM f xs of Inl e \<Rightarrow> Inl e | Inr ys \<Rightarrow> Inr (y # ys)))"

definition with_key :: "string \<Rightarrow> error + 'b \<Rightarrow> error + string \<times> 'b" where
  "with_key k r = (case r of Inl e \<Rightarrow> Inl e | Inr v \<Rightarrow> Inr (k, v))"

text \<open>Lines 239 to 301: the three nested loops over the sorted keys of the tally.\<close>

definition results_by_year ::
  "(int \<Rightarrow> int \<Rightarrow> pyfloat option) \<Rightarrow> (pyfloat \<Rightarrow> string) \<Rightarrow> tally
    \<Rightarrow> error + summary pydict pydict pydict" where
  "results_by_year round_pct format_2f t =
    mapM (\<lambda>year. with_key year
      (mapM (\<lambda>contest. with_key contest
        (mapM (\<lambda>county. with_key county
           (summarize round_pct format_2f year contest county
              (getitem_default []
                 (getitem_default [] (getitem_default [] t year) contest) county)))
           (sort (keys (getitem_default [] (getitem_default [] t year) contest)))))
        (sort (keys (getitem_default [] t year)))))
      (sort (keys t))"

text \<open>
  The part of the payload that depends on the input; the legend, the metadata and the
  date are constants of the report and are left out.
\<close>

record payload =
  p_total_years :: nat
  p_total_contests :: nat
  p_total_county_results :: nat
  p_years_covered :: "string list"
  p_results_by_year :: "summary pydict pydict pydict"

text \<open>The tally that \<^verbatim>\<open>build\<close> hands from its first loop to its second.\<close>

definition final_tally :: "(string \<times> string \<times> string) list \<Rightarrow> (string \<times> row list) list \<Rightarrow> tally" where
  "final_tally records files = st_tally (aggregate (load_namelsad20_lookup records) files)"

definition build ::
  "(string \<times> string \<times> string) list \<Rightarrow> (string \<times> row list) list
    \<Rightarrow> (int \<Rightarrow> int \<Rightarrow> pyfloat option) \<Rightarrow> (pyfloat \<Rightarrow> string) \<Rightarrow> error + payload" where
  "build records files round_pct format_2f =
    (let st = aggregate (load_namelsad20_lookup records) files in
     case results_by_year round_pct format_2f (st_tally st) of
       Inl e \<Rightarrow> Inl e
     | Inr results \<Rightarrow>
         Inr \<lparr>p_total_years = card (st_years_seen st),
              p_total_contests = card (st_contests_seen st),
              p_total_county_results =
                sum_list (map (\<lambda>(y, cs). sum_list (map (\<lambda>(c, ks). length ks) cs)) results),
              p_years_covered = sorted_list_of_set (st_years_seen st),
              p_results_by_year = results\<rparr>)"

text \<open>Predicates on the tally used to state its invariants.\<close>

definition all_vals :: "('v \<Rightarrow> bool) \<Rightarrow> 'v pydict \<Rightarrow> bool" where
  "all_vals Q d = list_all (\<lambda>(k, v). Q v) d"

definition contests_ok :: "by_party pydict pydict \<Rightarrow> bool" where
  "contests_ok cs =
    (distinct (keys cs) \<and> set (keys cs) \<subseteq> set (keys CONTEST_FILTER)
     \<and> all_vals (\<lambda>ks. distinct (keys ks)) cs)"

definition tally_ok :: "tally \<Rightarrow> bool" where
  "tally_ok t = (distinct (keys t) \<and> all_vals contests_ok t)"




section \<open>Properties\<close>

subsection \<open>The classifier\<close>

lemma competitiveness_tossup_iff:
  "competitiveness m w = tossup \<longleftrightarrow> w = ''TIE'' \<or> m < 0.5"
  by (simp add: competitiveness_def tossup_def Let_def)

lemma competitiveness_category_tossup_iff:
  "r_category (competitiveness m w) = ''Tossup'' \<longleftrightarrow> w = ''TIE'' \<or> m < 0.5"
  by (simp add: competitiveness_def tossup_def Let_def)

text \<open>
  C1. For a margin of at least 0, the classifier returns the party-neutral Tossup rating
  exactly when the winner is TIE or the margin is below 0.50; so a TIE is a Tossup at every
  margin, and a margin of exactly 0.50 with winner DEM or REP is not a Tossup.
\<close>

theorem C1_tossup_exactly:
  "0 \<le> m \<Longrightarrow>
     ((competitiveness m w = tossup) = (w = ''TIE'' \<or> m < 0.5))
   \<and> ((r_category (competitiveness m w) = ''Tossup'') = (w = ''TIE'' \<or> m < 0.5))
   \<and> competitiveness m ''TIE'' = tossup
   \<and> competitiveness 0.5 ''DEM'' \<noteq> tossup
   \<and> competitiveness 0.5 ''REP'' \<noteq> tossup"
  by (simp add: competitiveness_tossup_iff competitiveness_category_tossup_iff)

theorem C1_tossup_exactly_witness:
  "(0::real) \<le> 0.49
   \<and> competitiveness 0.49 ''DEM'' = tossup
   \<and> competitiveness 0.49 ''TIE'' = tossup
   \<and> r_category (competitiveness 0.5 ''DEM'') \<noteq> ''Tossup''"
  using C1_tossup_exactly [of "0.49" "''DEM''"] C1_tossup_exactly [of "0.5" "''DEM''"]
  by simp

lemmas str_eval = upper_def upper_char_def lower_def lower_char_def lowercase_letters_def
  uppercase_letters_def isspace_def whitespace_def strip_def replace_def

text \<open>
  C2. For winner DEM or REP and a margin of at least 0.5, the category is the first band,
  in descending order, whose inclusive lower bound the margin reaches (40, 30, 20, 10,
  5.5, 1, else Tilt), the code is the party letter followed by the band in capitals, and
  the party is the winner's.
\<close>

theorem C2_bands:
  "0.5 \<le> m \<Longrightarrow> w = ''DEM'' \<or> w = ''REP'' \<Longrightarrow>
     r_category (competitiveness m w) = spec_band m
   \<and> r_code (competitiveness m w) = (if w = ''REP'' then ''R'' else ''D'') @ band_suffix (spec_band m)
   \<and> r_party (competitiveness m w) = (if w = ''REP'' then ''Republican'' else ''Democratic'')"
  by (auto simp add: competitiveness_def spec_band_def band_suffix_def str_eval Let_def)

theorem C2_bands_witness:
  "(0.5::real) \<le> 20 \<and> r_category (competitiveness 20 ''DEM'') = ''Stronghold''
   \<and> r_code (competitiveness 20 ''DEM'') = ''D_STRONGHOLD''"
  using C2_bands [of 20 "''DEM''"]
  by (simp add: spec_band_def band_suffix_def str_eval)

text \<open>
  C9. The winner argument is not validated: for a margin of at least 0.5, every winner
  string other than REP and TIE gets a Democratic band with a code starting with D, and
  only the string REP gets a Republican one.
\<close>

theorem C9_winner_not_validated:
  "0.5 \<le> m \<Longrightarrow> w \<noteq> ''TIE'' \<Longrightarrow>
     (w \<noteq> ''REP'' \<longrightarrow> r_party (competitiveness m w) = ''Democratic''
                       \<and> prefix ''D_'' (r_code (competitiveness m w)))
   \<and> (w = ''REP'' \<longrightarrow> r_party (competitiveness m w) = ''Republican''
                       \<and> prefix ''R_'' (r_code (competitiveness m w)))"
  by (simp add: competitiveness_def Let_def)

theorem C9_winner_not_validated_witness:
  "(0.5::real) \<le> 12 \<and> ''XYZ'' \<noteq> ''TIE'' \<and> ''XYZ'' \<noteq> ''REP''
   \<and> r_party (competitiveness 12 ''XYZ'') = ''Democratic''
   \<and> prefix ''D_'' (r_code (competitiveness 12 ''XYZ''))"
  using C9_winner_not_validated [of 12 "''XYZ''"] by simp

subsection \<open>The normalizer and the resolver\<close>

lemma isspace_replace: "isspace (if c = CHR 0x60 then CHR 0x27 else c) = isspace c"
  by (simp add: isspace_def whitespace_def)

lemma strip_replace: "strip (replace (CHR 0x60) (CHR 0x27) s) = replace (CHR 0x60) (CHR 0x27) (strip s)"
  by (simp add: strip_def replace_def dropWhile_map rev_map comp_def isspace_replace)

lemma replace_idem: "replace (CHR 0x60) (CHR 0x27) (replace (CHR 0x60) (CHR 0x27) s) = replace (CHR 0x60) (CHR 0x27) s"
  by (simp add: replace_def)

lemma dropWhile_rev_dropWhile:
  "dropWhile P (rev (dropWhile P (rev (dropWhile P s)))) = rev (dropWhile P (rev (dropWhile P s)))"
proof -
  define t where "t = dropWhile P s"
  define u where "u = dropWhile P (rev t)"
  have "rev t = takeWhile P (rev t) @ u" by (simp add: u_def)
  then have t_eq: "t = rev u @ rev (takeWhile P (rev t))"
    by (metis rev_append rev_rev_ident)
  have "dropWhile P (rev u) = rev u"
  proof (cases "u = []")
    case True
    then show ?thesis by simp
  next
    case False
    then have "hd (rev u) = hd t" using t_eq by (metis hd_append2 rev_is_Nil_conv)
    moreover have "t \<noteq> []" using t_eq False by auto
    then have "\<not> P (hd t)" unfolding t_def by (rule hd_dropWhile)
    ultimately show ?thesis by (simp add: dropWhile_eq_self_iff)
  qed
  then show ?thesis by (simp add: t_def u_def)
qed

lemma strip_idem: "strip (strip s) = strip s"
  by (simp add: strip_def dropWhile_rev_dropWhile)

lemma norm_raw: "norm (replace (CHR 0x60) (CHR 0x27) (strip s)) = norm s"
  by (simp add: norm_def strip_replace replace_idem strip_idem)

lemma strip_all_space: "\<forall>c\<in>set s. isspace c \<Longrightarrow> strip s = []"
proof -
  assume "\<forall>c\<in>set s. isspace c"
  then have d: "dropWhile isspace s = []" by simp
  show ?thesis unfolding strip_def d by simp
qed

lemma find_has_city_nonempty: "find has_city vs = Some x \<Longrightarrow> has_city x \<and> x \<noteq> []"
  by (auto simp: find_Some_iff has_city_def contains_def lower_def)

text \<open>
  C7. Whenever the county string normalizes to "baltimore city" and the "baltimore" group of
  the lookup has an entry whose lowercase form contains " city", the resolver returns the
  first such entry of the group, whatever else is filed under the same base name.
\<close>

theorem C7_baltimore_city:
  "norm county = ''baltimore city'' \<Longrightarrow> by_name ''baltimore'' = Some vs \<Longrightarrow>
   find has_city vs = Some x \<Longrightarrow>
   to_namelsad20 county by_name = x \<and> has_city x"
  using find_has_city_nonempty[of vs x]
  by (simp add: to_namelsad20_def norm_raw Let_def get_list_def first_truthy_def)

text \<open>
  C10. On an empty or whitespace-only county string, with a lookup that has no entry under
  the empty key, the resolver returns the fallback " County": the empty trimmed string
  with " County" appended.
\<close>

theorem C10_empty_county:
  "\<forall>c\<in>set county. isspace c \<Longrightarrow> by_name [] = None \<Longrightarrow>
   to_namelsad20 county by_name = '' County''"
  by (simp add: to_namelsad20_def norm_raw Let_def strip_all_space norm_def replace_def lower_def
      resolve_generic_def base_key_def endswith_def get_list_def)

lemma PARTY_MAP_len: "map_of PARTY_MAP k = Some code \<Longrightarrow> length code = 3"
  by (auto simp: PARTY_MAP_def split: if_splits)

text \<open>
  C5, as amended. A party whose trimmed lowercase form is in the synonym table gets the
  table's code, which has three letters; an empty or whitespace-only party gets OTH; any
  other party is returned trimmed, in lowercase and then in capitals, whatever its
  length (stated for the parties without the characters 0xB5 and 0xFF).
\<close>

theorem C5_party_codes:
  "(map_of PARTY_MAP (lower (strip party)) = Some code \<longrightarrow>
      normalize_party party = code \<and> length code = 3)
   \<and> (strip party = [] \<longrightarrow> normalize_party party = ''OTH'')
   \<and> (map_of PARTY_MAP (lower (strip party)) = None \<and> strip party \<noteq> []
        \<and> CHR 0xB5 \<notin> set party \<and> CHR 0xFF \<notin> set party \<longrightarrow>
      normalize_party party = upper (lower (strip party)))"
  by (auto simp: normalize_party_def Let_def PARTY_MAP_len lower_def PARTY_MAP_def)

theorem C7_baltimore_city_witness:
  "norm ''  BALTIMORE   City '' = ''baltimore city''
   \<and> to_namelsad20 ''  BALTIMORE   City ''
        [''baltimore'' \<mapsto> [''Baltimore County'', ''Baltimore city'']] = ''Baltimore city''"
proof -
  have h1: "norm ''  BALTIMORE   City '' = ''baltimore city''" by code_simp
  have h2: "[''baltimore'' \<mapsto> [''Baltimore County'', ''Baltimore city'']] ''baltimore''
            = Some [''Baltimore County'', ''Baltimore city'']" by simp
  have h3: "find has_city [''Baltimore County'', ''Baltimore city''] = Some ''Baltimore city''"
    by code_simp
  show ?thesis
    using C7_baltimore_city [of "''  BALTIMORE   City ''"
        "[''baltimore'' \<mapsto> [''Baltimore County'', ''Baltimore city'']]"
        "[''Baltimore County'', ''Baltimore city'']" "''Baltimore city''"] h1 h2 h3
    by simp
qed

theorem C10_empty_county_witness:
  "list_all isspace ''  '' \<and> (Map.empty :: lookup) [] = None
   \<and> to_namelsad20 ''  '' Map.empty = '' County''"
proof -
  have h1: "\<forall>c\<in>set ''  ''. isspace c" by (simp add: isspace_def whitespace_def)
  have h2: "(Map.empty :: lookup) [] = None" by simp
  show ?thesis using C10_empty_county [of "''  ''" "Map.empty"] h1 by (simp add: list_all_iff)
qed

text \<open>
  C5 as stated fails: an unmapped party passes through in capitals at its own length.
\<close>

theorem C5_counterexample:
  "normalize_party ''Unaffiliated'' = ''UNAFFILIATED''
   \<and> length (normalize_party ''Unaffiliated'') \<noteq> 3"
  by code_simp

theorem C5_party_codes_witness:
  "map_of PARTY_MAP (lower (strip '' Democratic '')) = Some ''DEM''
   \<and> normalize_party '' Democratic '' = ''DEM''
   \<and> strip ''  '' = [] \<and> normalize_party ''  '' = ''OTH''
   \<and> map_of PARTY_MAP (lower (strip ''Unaffiliated'')) = None \<and> strip ''Unaffiliated'' \<noteq> []
   \<and> CHR 0xB5 \<notin> set ''Unaffiliated'' \<and> CHR 0xFF \<notin> set ''Unaffiliated''
   \<and> normalize_party ''Unaffiliated'' = upper (lower (strip ''Unaffiliated''))"
proof -
  have h1: "map_of PARTY_MAP (lower (strip '' Democratic '')) = Some ''DEM''" by code_simp
  have h2: "strip ''  '' = []" by code_simp
  have h3: "map_of PARTY_MAP (lower (strip ''Unaffiliated'')) = None" by code_simp
  have h4: "strip ''Unaffiliated'' \<noteq> []" by code_simp
  have h5: "CHR 0xB5 \<notin> set ''Unaffiliated'' \<and> CHR 0xFF \<notin> set ''Unaffiliated''" by simp
  show ?thesis
    using C5_party_codes [of "'' Democratic ''" "''DEM''"] C5_party_codes [of "''  ''" "[]"]
      C5_party_codes [of "''Unaffiliated''" "[]"] h1 h2 h3 h4 h5
    by simp
qed

text \<open>
  C4. The test for the word "and" is made on the lowercase name, the split on the name as
  written: a name with "AND" in capitals passes the test and is returned whole, where the
  same name with "and" in lowercase loses its running mate.
\<close>

theorem C4_case_insensitive_and_not_split:
  "contains '' and '' (lower ''Smith AND Jones'')
   \<and> remove_running_mate ''Smith AND Jones'' = ''Smith AND Jones''
   \<and> remove_running_mate ''Smith and Jones'' = ''Smith''
   \<and> remove_running_mate ''Smith/Jones'' = ''Smith''
   \<and> remove_running_mate ''Smith'' = ''Smith''
   \<and> remove_running_mate [] = []"
  by code_simp

subsection \<open>The aggregator and the report\<close>

lemma mapM_Inr_iff: "mapM f xs = Inr ys \<longleftrightarrow> list_all2 (\<lambda>x y. f x = Inr y) xs ys"
proof (induction xs arbitrary: ys)
  case Nil
  then show ?case by auto
next
  case (Cons x xs)
  show ?case
    by (cases ys) (auto simp: Cons.IH [symmetric] split: sum.splits)
qed

lemma mapM_total:
  "(\<And>x. x \<in> set xs \<Longrightarrow> \<exists>y. f x = Inr y) \<Longrightarrow> \<exists>ys. mapM f xs = Inr ys"
proof (induction xs)
  case Nil
  then show ?case by simp
next
  case (Cons x xs)
  then obtain y ys where "f x = Inr y" "mapM f xs = Inr ys"
    by (metis list.set_intros(1) list.set_intros(2))
  then show ?case by simp
qed

lemma with_key_Inr: "with_key k r = Inr kv \<longleftrightarrow> (\<exists>v. r = Inr v \<and> kv = (k, v))"
  by (auto simp: with_key_def split: sum.splits)

lemma with_key_total: "\<exists>v. r = Inr v \<Longrightarrow> \<exists>y. with_key k r = Inr y"
  by (auto simp: with_key_def)

lemma mapM_with_key_keys:
  "mapM (\<lambda>k. with_key k (g k)) ks = Inr r \<Longrightarrow> keys r = ks"
  unfolding mapM_Inr_iff keys_def
  by (induction ks r rule: list_all2_induct) (auto simp: with_key_Inr)

lemma mapM_with_key_mem:
  "mapM (\<lambda>k. with_key k (g k)) ks = Inr r \<Longrightarrow> (k, v) \<in> set r \<Longrightarrow> k \<in> set ks \<and> g k = Inr v"
  unfolding mapM_Inr_iff
  by (induction ks r rule: list_all2_induct) (auto simp: with_key_Inr)

lemma keys_update_default:
  "set (keys (update_default dflt k f d)) = insert k (set (keys d))"
proof (cases "k \<in> set (keys d)")
  case True
  have "map fst (map (\<lambda>(k', v). if k' = k then (k', f v) else (k', v)) d) = map fst d"
    by (induction d) auto
  then show ?thesis using True by (auto simp: update_default_def keys_def)
next
  case False
  then show ?thesis by (auto simp: update_default_def keys_def)
qed

lemma keys_update_default_present:
  "k \<in> set (keys d) \<Longrightarrow> keys (update_default dflt k f d) = keys d"
proof -
  assume "k \<in> set (keys d)"
  moreover have "map fst (map (\<lambda>(k', v). if k' = k then (k', f v) else (k', v)) d) = map fst d"
    by (induction d) auto
  ultimately show ?thesis by (simp add: update_default_def keys_def)
qed

lemma distinct_update_default:
  "distinct (keys d) \<Longrightarrow> distinct (keys (update_default dflt k f d))"
proof (cases "k \<in> set (keys d)")
  case True
  assume "distinct (keys d)"
  then show ?thesis using True by (simp add: keys_update_default_present)
next
  case False
  assume "distinct (keys d)"
  then show ?thesis using False by (simp add: update_default_def keys_def)
qed

lemma all_vals_update_default:
  "all_vals Q d \<Longrightarrow> Q (f dflt) \<Longrightarrow> (\<And>v. Q v \<Longrightarrow> Q (f v)) \<Longrightarrow>
   all_vals Q (update_default dflt k f d)"
proof -
  assume a: "all_vals Q d" and b: "Q (f dflt)" and c: "\<And>v. Q v \<Longrightarrow> Q (f v)"
  have "all_vals Q (map (\<lambda>(k', v). if k' = k then (k', f v) else (k', v)) d)"
    using a c by (induction d) (auto simp: all_vals_def split: if_splits)
  moreover have "all_vals Q (d @ [(k, f dflt)])"
    using a b by (simp add: all_vals_def)
  ultimately show ?thesis by (simp add: update_default_def)
qed

lemma all_vals_Nil: "all_vals Q []"
  by (simp add: all_vals_def)

lemma all_vals_getitem:
  "all_vals Q d \<Longrightarrow> Q dflt \<Longrightarrow> Q (getitem_default dflt d k)"
  by (auto simp: all_vals_def getitem_default_def list_all_iff split: option.splits dest: map_of_SomeD)

lemma all_vals_mem: "all_vals Q d \<Longrightarrow> (k, v) \<in> set d \<Longrightarrow> Q v"
  by (auto simp: all_vals_def list_all_iff)


lemma fold_invariant:
  "P s \<Longrightarrow> (\<And>x s. x \<in> set xs \<Longrightarrow> P s \<Longrightarrow> P (f x s)) \<Longrightarrow> P (fold f xs s)"
  by (induction xs arbitrary: s) auto

lemma contests_ok_Nil: "contests_ok []"
  by (simp add: contests_ok_def keys_def all_vals_Nil)

lemma contests_ok_update:
  assumes "contests_ok cs" and "contest \<in> set (keys CONTEST_FILTER)"
  shows "contests_ok (update_default [] contest (update_default [] county g) cs)"
proof -
  have "all_vals (\<lambda>ks. distinct (keys ks))
          (update_default [] contest (update_default [] county g) cs)"
    using assms(1)
    by (intro all_vals_update_default distinct_update_default)
       (simp_all add: contests_ok_def keys_def)
  then show ?thesis
    using assms by (simp add: contests_ok_def distinct_update_default keys_update_default)
qed

lemma tally_add_ok:
  assumes "tally_ok t" and "contest \<in> set (keys CONTEST_FILTER)"
  shows "tally_ok (tally_add year contest county party_code candidate votes t)"
proof -
  have "all_vals contests_ok (tally_add year contest county party_code candidate votes t)"
    unfolding tally_add_def using assms
    by (intro all_vals_update_default contests_ok_update)
       (simp_all add: tally_ok_def contests_ok_Nil)
  then show ?thesis
    using assms(1) by (simp add: tally_ok_def tally_add_def distinct_update_default)
qed


lemma process_row_ok: "tally_ok (st_tally st) \<Longrightarrow> tally_ok (st_tally (process_row by_name year r st))"
  by (simp add: process_row_def Let_def tally_add_ok)


lemma process_file_ok:
  "tally_ok (st_tally st) \<Longrightarrow> tally_ok (st_tally (process_file by_name fl st))"
proof -
  assume a: "tally_ok (st_tally st)"
  obtain name rows where f: "fl = (name, rows)" by (cases fl)
  show ?thesis
  proof (cases "py_int (take 4 name)")
    case None
    then show ?thesis using a f by (simp add: process_file_def)
  next
    case (Some y)
    have "tally_ok (st_tally (fold (process_row by_name (take 4 name)) rows
            (st\<lparr>st_years_seen := insert (take 4 name) (st_years_seen st)\<rparr>)))"
      by (rule fold_invariant [where P = "\<lambda>s::state. tally_ok (st_tally s)"])
         (simp_all add: a process_row_ok)
    then show ?thesis using f Some by (simp add: process_file_def Let_def)
  qed
qed


lemma initial_ok: "tally_ok []"
  by (simp add: tally_ok_def keys_def all_vals_Nil)


lemma aggregate_ok: "tally_ok (st_tally (aggregate by_name files))"
  unfolding aggregate_def
proof (rule fold_invariant [where P = "\<lambda>s::state. tally_ok (st_tally s)"])
  show "tally_ok (st_tally \<lparr>st_tally = [], st_years_seen = {}, st_contests_seen = {}\<rparr>)"
    by (simp add: initial_ok)
next
  fix x and s :: state
  assume "tally_ok (st_tally s)"
  then show "tally_ok (st_tally (process_file by_name x s))" by (rule process_file_ok)
qed


lemma pct_total:
  assumes "\<And>a b. round_pct a b \<noteq> None"
  shows "pct round_pct a t = Inr (if 0 < t then the (round_pct a t) else Finite 0)"
proof -
  obtain y where "round_pct a t = Some y" using assms [of a t] by auto
  then show ?thesis by (simp add: pct_def)
qed

lemma summarize_total:
  assumes "contest \<in> set (keys CONTEST_FILTER)" and rp: "\<And>a b. round_pct a b \<noteq> None"
  shows "\<exists>s. summarize round_pct format_2f year contest county by_party = Inr s"
proof -
  obtain v where v: "map_of CONTEST_FILTER contest = Some v"
    using assms(1) by (metis keys_def map_of_eq_None_iff not_None_eq set_map)
  note p = pct_total [of round_pct, OF rp]
  show ?thesis
    using v by (cases v) (simp add: summarize_def Let_def p)
qed

lemma contests_ok_getitem: "tally_ok t \<Longrightarrow> contests_ok (getitem_default [] t year)"
  by (simp add: tally_ok_def all_vals_getitem contests_ok_Nil)

lemma counties_distinct_getitem:
  "tally_ok t \<Longrightarrow> distinct (keys (getitem_default [] (getitem_default [] t year) contest))"
proof -
  assume "tally_ok t"
  then have "contests_ok (getitem_default [] t year)" by (rule contests_ok_getitem)
  then have "all_vals (\<lambda>ks. distinct (keys ks)) (getitem_default [] t year)"
    by (simp add: contests_ok_def)
  then show ?thesis by (rule all_vals_getitem) (simp add: keys_def)
qed

lemma results_by_year_total:
  assumes "tally_ok t" and rp: "\<And>a b. round_pct a b \<noteq> None"
  shows "\<exists>res. results_by_year round_pct format_2f t = Inr res"
  unfolding results_by_year_def
proof (rule mapM_total)
  fix year
  have "\<exists>cs. mapM (\<lambda>contest. with_key contest
        (mapM (\<lambda>county. with_key county
           (summarize round_pct format_2f year contest county
              (getitem_default []
                 (getitem_default [] (getitem_default [] t year) contest) county)))
           (sort (keys (getitem_default [] (getitem_default [] t year) contest)))))
        (sort (keys (getitem_default [] t year))) = Inr cs"
  proof (rule mapM_total)
    fix contest
    assume "contest \<in> set (sort (keys (getitem_default [] t year)))"
    then have c: "contest \<in> set (keys CONTEST_FILTER)"
      using contests_ok_getitem [OF assms(1), of year] by (auto simp: contests_ok_def)
    have "\<exists>ks. mapM (\<lambda>county. with_key county
           (summarize round_pct format_2f year contest county
              (getitem_default []
                 (getitem_default [] (getitem_default [] t year) contest) county)))
           (sort (keys (getitem_default [] (getitem_default [] t year) contest))) = Inr ks"
    proof (rule mapM_total)
      fix county
      show "\<exists>y. with_key county
           (summarize round_pct format_2f year contest county
              (getitem_default []
                 (getitem_default [] (getitem_default [] t year) contest) county)) = Inr y"
        by (rule with_key_total) (rule summarize_total [OF c], rule rp)
    qed
    then show "\<exists>y. with_key contest
        (mapM (\<lambda>county. with_key county
           (summarize round_pct format_2f year contest county
              (getitem_default []
                 (getitem_default [] (getitem_default [] t year) contest) county)))
           (sort (keys (getitem_default [] (getitem_default [] t year) contest)))) = Inr y"
      by (rule with_key_total)
  qed
  then show "\<exists>y. with_key year
      (mapM (\<lambda>contest. with_key contest
        (mapM (\<lambda>county. with_key county
           (summarize round_pct format_2f year contest county
              (getitem_default []
                 (getitem_default [] (getitem_default [] t year) contest) county)))
           (sort (keys (getitem_default [] (getitem_default [] t year) contest)))))
        (sort (keys (getitem_default [] t year)))) = Inr y"
    by (rule with_key_total)
qed

lemma results_by_year_keys:
  assumes "results_by_year round_pct format_2f t = Inr res"
  shows "keys res = sort (keys t)"
    and "(year, cs) \<in> set res \<Longrightarrow> keys cs = sort (keys (getitem_default [] t year))"
    and "(year, cs) \<in> set res \<Longrightarrow> (contest, ks) \<in> set cs \<Longrightarrow>
         keys ks = sort (keys (getitem_default [] (getitem_default [] t year) contest))"
    and "(year, cs) \<in> set res \<Longrightarrow> (contest, ks) \<in> set cs \<Longrightarrow> (county, s) \<in> set ks \<Longrightarrow>
         summarize round_pct format_2f year contest county
           (getitem_default [] (getitem_default [] (getitem_default [] t year) contest) county)
         = Inr s"
proof -
  note r = assms [unfolded results_by_year_def]
  show "keys res = sort (keys t)" by (rule mapM_with_key_keys [OF r])
  {
    assume y: "(year, cs) \<in> set res"
    note c = mapM_with_key_mem [OF r y, THEN conjunct2]
    show "keys cs = sort (keys (getitem_default [] t year))"
      by (rule mapM_with_key_keys [OF c])
    {
      assume k: "(contest, ks) \<in> set cs"
      note d = mapM_with_key_mem [OF c k, THEN conjunct2]
      show "keys ks = sort (keys (getitem_default [] (getitem_default [] t year) contest))"
        by (rule mapM_with_key_keys [OF d])
      {
        assume e: "(county, s) \<in> set ks"
        show "summarize round_pct format_2f year contest county
           (getitem_default [] (getitem_default [] (getitem_default [] t year) contest) county)
         = Inr s"
          by (rule mapM_with_key_mem [OF d e, THEN conjunct2])
      }
    }
  }
qed

lemma build_Inr:
  "results_by_year round_pct format_2f (final_tally records files) = Inr res \<Longrightarrow>
   \<exists>p. build records files round_pct format_2f = Inr p \<and> p_results_by_year p = res"
  by (simp add: build_def final_tally_def Let_def)

lemma build_results:
  "build records files round_pct format_2f = Inr p \<Longrightarrow>
   results_by_year round_pct format_2f (final_tally records files) = Inr (p_results_by_year p)"
  by (auto simp: build_def final_tally_def Let_def split: sum.splits)

lemma final_tally_ok: "tally_ok (final_tally records files)"
  unfolding final_tally_def by (rule aggregate_ok)

lemma build_total:
  assumes "\<And>a b. round_pct a b \<noteq> None"
  shows "\<exists>p. build records files round_pct format_2f = Inr p"
proof -
  have "\<exists>res. results_by_year round_pct format_2f (final_tally records files) = Inr res"
    by (rule results_by_year_total) (rule final_tally_ok, rule assms)
  then obtain res where
    "results_by_year round_pct format_2f (final_tally records files) = Inr res" ..
  then have "\<exists>p. build records files round_pct format_2f = Inr p \<and> p_results_by_year p = res"
    by (rule build_Inr)
  then show ?thesis by blast
qed

text \<open>
  C8. In the \<open>results_by_year\<close> of every payload that the build returns, the year keys
  are the year keys of the tally in sorted order, the contest keys of a year are the
  contest keys of that year in the tally in sorted order, and the county keys of a contest
  are its county keys in the tally in sorted order; the order is the lexicographic order
  of the strings, and no key occurs twice.
\<close>

theorem C8_sorted_keys:
  assumes "build records files round_pct format_2f = Inr p"
  shows "keys (p_results_by_year p) = sort (keys (final_tally records files))
     \<and> sorted (keys (p_results_by_year p)) \<and> distinct (keys (p_results_by_year p))
     \<and> (\<forall>(year, contests) \<in> set (p_results_by_year p).
          keys contests = sort (keys (getitem_default [] (final_tally records files) year))
          \<and> sorted (keys contests) \<and> distinct (keys contests)
          \<and> (\<forall>(contest, counties) \<in> set contests.
                keys counties
                  = sort (keys (getitem_default []
                      (getitem_default [] (final_tally records files) year) contest))
                \<and> sorted (keys counties) \<and> distinct (keys counties)))"
proof -
  define t where "t = final_tally records files"
  define res where "res = p_results_by_year p"
  have ok: "tally_ok t" unfolding t_def by (rule final_tally_ok)
  have r: "results_by_year round_pct format_2f t = Inr res"
    unfolding t_def res_def using assms by (rule build_results)
  have k1: "keys res = sort (keys t)" by (rule results_by_year_keys(1) [OF r])
  have d1: "distinct (keys t)" using ok by (simp add: tally_ok_def)
  have inner: "keys cs = sort (keys (getitem_default [] t year))
          \<and> sorted (keys cs) \<and> distinct (keys cs)
          \<and> (\<forall>(contest, ks) \<in> set cs.
                keys ks = sort (keys (getitem_default [] (getitem_default [] t year) contest))
                \<and> sorted (keys ks) \<and> distinct (keys ks))"
    if y: "(year, cs) \<in> set res" for year cs
  proof -
    have k2: "keys cs = sort (keys (getitem_default [] t year))"
      by (rule results_by_year_keys(2) [OF r y])
    have d2: "distinct (keys (getitem_default [] t year))"
      using contests_ok_getitem [OF ok, of year] by (simp add: contests_ok_def)
    have one: "keys ks = sort (keys (getitem_default [] (getitem_default [] t year) contest))
          \<and> sorted (keys ks) \<and> distinct (keys ks)"
      if c: "(contest, ks) \<in> set cs" for contest ks
    proof -
      have "keys ks = sort (keys (getitem_default [] (getitem_default [] t year) contest))"
        by (rule results_by_year_keys(3) [OF r y c])
      then show ?thesis using counties_distinct_getitem [OF ok, of year contest] by simp
    qed
    have "\<forall>(contest, ks) \<in> set cs.
                keys ks = sort (keys (getitem_default [] (getitem_default [] t year) contest))
                \<and> sorted (keys ks) \<and> distinct (keys ks)"
    proof (intro ballI)
      fix x assume "x \<in> set cs"
      then have "(fst x, snd x) \<in> set cs" by simp
      from one [OF this] show "case x of (contest, ks) \<Rightarrow>
                keys ks = sort (keys (getitem_default [] (getitem_default [] t year) contest))
                \<and> sorted (keys ks) \<and> distinct (keys ks)"
        unfolding case_prod_unfold .
    qed
    moreover have "sorted (keys cs) \<and> distinct (keys cs)" using k2 d2 by simp
    ultimately show ?thesis using k2 by blast
  qed
  have all: "\<forall>(year, cs) \<in> set res.
          keys cs = sort (keys (getitem_default [] t year))
          \<and> sorted (keys cs) \<and> distinct (keys cs)
          \<and> (\<forall>(contest, ks) \<in> set cs.
                keys ks = sort (keys (getitem_default [] (getitem_default [] t year) contest))
                \<and> sorted (keys ks) \<and> distinct (keys ks))"
  proof (intro ballI)
    fix x assume "x \<in> set res"
    then have "(fst x, snd x) \<in> set res" by simp
    from inner [OF this] show "case x of (year, cs) \<Rightarrow>
          keys cs = sort (keys (getitem_default [] t year))
          \<and> sorted (keys cs) \<and> distinct (keys cs)
          \<and> (\<forall>(contest, ks) \<in> set cs.
                keys ks = sort (keys (getitem_default [] (getitem_default [] t year) contest))
                \<and> sorted (keys ks) \<and> distinct (keys ks))"
      unfolding case_prod_unfold .
  qed
  have s1: "sorted (keys res)" and s2: "distinct (keys res)" using k1 d1 by simp_all
  from k1 s1 s2 all show ?thesis unfolding t_def res_def by (intro conjI)
qed

theorem C8_sorted_keys_witness:
  "case build []
       [(''2022__md__general__county.csv'',
           [[''office'' \<mapsto> ''President'', ''county'' \<mapsto> ''Zed'', ''party'' \<mapsto> ''Democratic'',
             ''candidate'' \<mapsto> ''A'', ''votes'' \<mapsto> ''10''],
            [''office'' \<mapsto> ''Governor'', ''county'' \<mapsto> ''Abel'', ''party'' \<mapsto> ''Republican'',
             ''candidate'' \<mapsto> ''B'', ''votes'' \<mapsto> ''4'']]),
        (''2020__md__general__county.csv'',
           [[''office'' \<mapsto> ''President'', ''county'' \<mapsto> ''Zed'', ''party'' \<mapsto> ''Republican'',
             ''candidate'' \<mapsto> ''C'', ''votes'' \<mapsto> ''3''],
            [''office'' \<mapsto> ''President'', ''county'' \<mapsto> ''Abel'', ''party'' \<mapsto> ''Democratic'',
             ''candidate'' \<mapsto> ''D'', ''votes'' \<mapsto> ''5'']])]
       (\<lambda>a b. Some (Finite 0)) (\<lambda>x. []) of
     Inl e \<Rightarrow> False
   | Inr p \<Rightarrow>
       keys (p_results_by_year p) = [''2020'', ''2022'']
       \<and> sorted (keys (p_results_by_year p))
       \<and> list_all (\<lambda>yc. sorted (keys (snd yc))
                        \<and> list_all (\<lambda>ck. sorted (keys (snd ck))) (snd yc))
           (p_results_by_year p)"
proof -
  let ?files = "[(''2022__md__general__county.csv'',
           [[''office'' \<mapsto> ''President'', ''county'' \<mapsto> ''Zed'', ''party'' \<mapsto> ''Democratic'',
             ''candidate'' \<mapsto> ''A'', ''votes'' \<mapsto> ''10''],
            [''office'' \<mapsto> ''Governor'', ''county'' \<mapsto> ''Abel'', ''party'' \<mapsto> ''Republican'',
             ''candidate'' \<mapsto> ''B'', ''votes'' \<mapsto> ''4'']]),
        (''2020__md__general__county.csv'',
           [[''office'' \<mapsto> ''President'', ''county'' \<mapsto> ''Zed'', ''party'' \<mapsto> ''Republican'',
             ''candidate'' \<mapsto> ''C'', ''votes'' \<mapsto> ''3''],
            [''office'' \<mapsto> ''President'', ''county'' \<mapsto> ''Abel'', ''party'' \<mapsto> ''Democratic'',
             ''candidate'' \<mapsto> ''D'', ''votes'' \<mapsto> ''5'']])]"
  obtain p where b: "build [] ?files (\<lambda>a b. Some (Finite 0)) (\<lambda>x. []) = Inr p"
    using build_total [of "\<lambda>a b. Some (Finite 0)" "[]" ?files "\<lambda>x. []"] by auto
  have t: "sort (keys (final_tally [] ?files)) = [''2020'', ''2022'']"
    by code_simp
  show ?thesis
    using C8_sorted_keys [OF b] b t by (simp add: list_all_iff case_prod_unfold)
qed












end
